theory Spec2Isabelle
  imports Main "HOL-Library.Word"
begin

unbundle bit_operations_syntax

section \<open>Bytes and errors\<close>

text \<open>
  A Go \<^verbatim>\<open>[]byte\<close> is a list of 8-bit words. The nil slice has length 0 and the
  package never tests a slice for nil, so nil is the empty list. A Go \<^verbatim>\<open>error\<close>
  is its message; the nil error is \<open>None\<close> of \<open>error option\<close>. A run-time panic
  (index out of range) is the value \<open>None\<close> of the outer \<open>option\<close> of a result.
\<close>

type_synonym byte = "8 word"
type_synonym u32 = "32 word"
type_synonym error = string

section \<open>The digest of the standard library: \<^verbatim>\<open>crypto/md5\<close>\<close>

text \<open>
  \<^verbatim>\<open>md5.Sum\<close> belongs to Go's standard library, not to the package. It computes
  the MD5 digest of RFC 1321, which is what follows: the table of sines, the rotation
  amounts, the padding to a multiple of 64 bytes with the bit length in the last eight,
  the 64 steps for each block of sixteen little-endian words, and the four state words
  written out little-endian.
\<close>

definition md5_K :: "u32 list" where
  "md5_K =
    [
     0xd76aa478, 0xe8c7b756, 0x242070db, 0xc1bdceee,
     0xf57c0faf, 0x4787c62a, 0xa8304613, 0xfd469501,
     0x698098d8, 0x8b44f7af, 0xffff5bb1, 0x895cd7be,
     0x6b901122, 0xfd987193, 0xa679438e, 0x49b40821,
     0xf61e2562, 0xc040b340, 0x265e5a51, 0xe9b6c7aa,
     0xd62f105d, 0x02441453, 0xd8a1e681, 0xe7d3fbc8,
     0x21e1cde6, 0xc33707d6, 0xf4d50d87, 0x455a14ed,
     0xa9e3e905, 0xfcefa3f8, 0x676f02d9, 0x8d2a4c8a,
     0xfffa3942, 0x8771f681, 0x6d9d6122, 0xfde5380c,
     0xa4beea44, 0x4bdecfa9, 0xf6bb4b60, 0xbebfbc70,
     0x289b7ec6, 0xeaa127fa, 0xd4ef3085, 0x04881d05,
     0xd9d4d039, 0xe6db99e5, 0x1fa27cf8, 0xc4ac5665,
     0xf4292244, 0x432aff97, 0xab9423a7, 0xfc93a039,
     0x655b59c3, 0x8f0ccc92, 0xffeff47d, 0x85845dd1,
     0x6fa87e4f, 0xfe2ce6e0, 0xa3014314, 0x4e0811a1,
     0xf7537e82, 0xbd3af235, 0x2ad7d2bb, 0xeb86d391]"

definition md5_S :: "nat list" where
  "md5_S =
    [
     7, 12, 17, 22, 7, 12, 17, 22, 7, 12, 17, 22, 7, 12, 17, 22,
     5, 9, 14, 20, 5, 9, 14, 20, 5, 9, 14, 20, 5, 9, 14, 20,
     4, 11, 16, 23, 4, 11, 16, 23, 4, 11, 16, 23, 4, 11, 16, 23,
     6, 10, 15, 21, 6, 10, 15, 21, 6, 10, 15, 21, 6, 10, 15, 21]"

fun words_of :: "byte list \<Rightarrow> u32 list" where
  "words_of (b0 # b1 # b2 # b3 # bs) =
     (ucast b0 OR push_bit 8 (ucast b1) OR push_bit 16 (ucast b2) OR push_bit 24 (ucast b3))
       # words_of bs"
| "words_of _ = []"

definition md5_pad :: "byte list \<Rightarrow> byte list" where
  "md5_pad m =
     m @ [0x80] @ replicate ((119 - length m mod 64) mod 64) 0
       @ map (\<lambda>i. ucast (drop_bit (8 * i) (of_nat (8 * length m) :: 64 word))) [0..<8]"

definition md5_step ::
  "u32 list \<Rightarrow> u32 \<times> u32 \<times> u32 \<times> u32 \<Rightarrow> nat \<Rightarrow> u32 \<times> u32 \<times> u32 \<times> u32" where
  "md5_step M s i =
     (case s of (a, b, c, d) \<Rightarrow>
        let (f, g) =
              (if i < 16 then ((b AND c) OR (NOT b AND d), i)
               else if i < 32 then ((d AND b) OR (NOT d AND c), (5 * i + 1) mod 16)
               else if i < 48 then (b XOR c XOR d, (3 * i + 5) mod 16)
               else (c XOR (b OR NOT d), (7 * i) mod 16))
        in (d, b + word_rotl (md5_S ! i) (f + a + md5_K ! i + M ! g), b, c))"

definition md5_block ::
  "u32 \<times> u32 \<times> u32 \<times> u32 \<Rightarrow> u32 list \<Rightarrow> u32 \<times> u32 \<times> u32 \<times> u32" where
  "md5_block s M =
     (case s of (a0, b0, c0, d0) \<Rightarrow>
        case foldl (md5_step M) s [0..<64] of (a, b, c, d) \<Rightarrow>
          (a0 + a, b0 + b, c0 + c, d0 + d))"

fun md5_blocks ::
  "u32 \<times> u32 \<times> u32 \<times> u32 \<Rightarrow> u32 list \<Rightarrow> u32 \<times> u32 \<times> u32 \<times> u32" where
  "md5_blocks s ws =
     (if length ws < 16 then s else md5_blocks (md5_block s (take 16 ws)) (drop 16 ws))"

declare md5_blocks.simps [simp del]

definition le_bytes32 :: "u32 \<Rightarrow> byte list" where
  "le_bytes32 w = map (\<lambda>i. ucast (drop_bit (8 * i) w)) [0..<4]"

definition md5 :: "byte list \<Rightarrow> byte list" where
  "md5 m =
     (case md5_blocks (0x67452301, 0xefcdab89, 0x98badcfe, 0x10325476) (words_of (md5_pad m))
      of (a, b, c, d) \<Rightarrow> le_bytes32 a @ le_bytes32 b @ le_bytes32 c @ le_bytes32 d)"

section \<open>The interface \<^verbatim>\<open>Watched\<close> and the file target\<close>

text \<open>
  \<^verbatim>\<open>
  type Watched interface {
          FailOpen() bool
          Content() ([]byte, error)
  }
  \<close>
  Both methods are run against the outside world as it is at the moment of the call;
  \<open>'e\<close> is the type of that world. \<open>Content\<close> answers \<open>Inl err\<close> where the Go
  method returns a non-nil error and \<open>Inr bytes\<close> otherwise.
\<close>

record 'e Watched =
  FailOpen :: "'e \<Rightarrow> bool"
  Content :: "'e \<Rightarrow> error + byte list"

text \<open>
  For the file target the world is the file system: what \<^verbatim>\<open>ioutil.ReadFile\<close>
  answers for each path.
\<close>

type_synonym filesystem = "string \<Rightarrow> error + byte list"

record watchedFile =
  path :: string
  failOpen :: bool

definition watchedFile_FailOpen :: "watchedFile \<Rightarrow> bool" where
  "watchedFile_FailOpen file = failOpen file"

definition watchedFile_Content :: "watchedFile \<Rightarrow> filesystem \<Rightarrow> error + byte list" where
  "watchedFile_Content file fs =
     (case fs (path file) of
        Inl err \<Rightarrow> Inl (''Unable to read config file: '' @ err)
      | Inr configContents \<Rightarrow> Inr configContents)"

definition FileTarget :: "string \<Rightarrow> bool \<Rightarrow> filesystem Watched" where
  "FileTarget p fo =
     \<lparr>FailOpen = (\<lambda>fs. watchedFile_FailOpen \<lparr>path = p, failOpen = fo\<rparr>),
      Content = watchedFile_Content \<lparr>path = p, failOpen = fo\<rparr>\<rparr>"

section \<open>\<^verbatim>\<open>byteSliceMatch\<close>\<close>

text \<open>
  \<^verbatim>\<open>
  func byteSliceMatch(a, b []byte) bool {
          if len(a) != len(b) { return false }
          for i := range a {
                  if a[i] != b[i] { return false }
          }
          return true
  }
  \<close>
  The loop runs \<open>i\<close> over the indices of \<open>a\<close>; reading \<open>b[i]\<close> beyond the length
  of \<open>b\<close> is Go's index-out-of-range panic, the value \<open>None\<close>.
\<close>

function byteSliceMatch_loop :: "byte list \<Rightarrow> byte list \<Rightarrow> nat \<Rightarrow> bool option" where
  "byteSliceMatch_loop a b i =
     (if i < length a then
        (if i < length b then
           (if a ! i \<noteq> b ! i then Some False else byteSliceMatch_loop a b (Suc i))
         else None)
      else Some True)"
  by pat_completeness auto
termination
  by (relation "measure (\<lambda>(a, b, i). length a - i)") auto

declare byteSliceMatch_loop.simps [simp del]

definition byteSliceMatch :: "byte list \<Rightarrow> byte list \<Rightarrow> bool option" where
  "byteSliceMatch a b =
     (if length a \<noteq> length b then Some False else byteSliceMatch_loop a b 0)"

section \<open>The watcher\<close>

text \<open>
  \<^verbatim>\<open>
  type watcher struct {
          target   Watched
          lastHash []byte
  }
  \<close>
\<close>

record 'e watcher =
  target :: "'e Watched"
  lastHash :: "byte list"

definition NewWatched :: "'e Watched \<Rightarrow> 'e watcher" where
  "NewWatched tgt = \<lparr>target = tgt, lastHash = []\<rparr>"

text \<open>The later revision of the file calls the same constructor \<^verbatim>\<open>New\<close>.\<close>

definition New :: "'e Watched \<Rightarrow> 'e watcher" where
  "New tgt = \<lparr>target = tgt, lastHash = []\<rparr>"

definition File :: "string \<Rightarrow> filesystem watcher" where
  "File p = NewWatched (FileTarget p True)"

text \<open>
  \<^verbatim>\<open>
  func (w *watcher) targetDiff(token []byte) ([]byte, bool, error) {
          content, err := w.target.Content()
          if err != nil {
                  return nil, w.target.FailOpen(), fmt.Errorf("Unable to get target content: %v", err.Error())
          }
          contentSum := md5.Sum(content)
          hash := contentSum[:]
          if byteSliceMatch(hash, token) { return token, false, nil }
          return hash, true, nil
  }
  \<close>
\<close>

definition targetDiff ::
  "'e watcher \<Rightarrow> 'e \<Rightarrow> byte list \<Rightarrow> (byte list \<times> bool \<times> error option) option" where
  "targetDiff w e token =
     (case Content (target w) e of
        Inl err \<Rightarrow>
          Some ([], FailOpen (target w) e, Some (''Unable to get target content: '' @ err))
      | Inr content \<Rightarrow>
          (let hash = md5 content
           in case byteSliceMatch hash token of
                None \<Rightarrow> None
              | Some m \<Rightarrow> if m then Some (token, False, None) else Some (hash, True, None)))"

text \<open>
  \<^verbatim>\<open>
  func (w *watcher) Updated() (bool, error) {
          newHash, diff, err := w.targetDiff(w.lastHash)
          if err == nil { w.lastHash = newHash }
          return diff, err
  }
  \<close>
  The watcher is passed in and returned updated.
\<close>

definition Updated :: "'e watcher \<Rightarrow> 'e \<Rightarrow> ((bool \<times> error option) \<times> 'e watcher) option" where
  "Updated w e =
     (case targetDiff w e (lastHash w) of
        None \<Rightarrow> None
      | Some (newHash, diff, err) \<Rightarrow>
          Some ((diff, err), if err = None then w\<lparr>lastHash := newHash\<rparr> else w))"

text \<open>
  A caller that polls, as \<^verbatim>\<open>mainPoll\<close> of the demo does: successive calls of
  \<^verbatim>\<open>Updated\<close> on one watcher. The list gives the world at each call; the results
  are collected in order.
\<close>

fun Updated_seq ::
  "'e watcher \<Rightarrow> 'e list \<Rightarrow> ((bool \<times> error option) list \<times> 'e watcher) option" where
  "Updated_seq w [] = Some ([], w)"
| "Updated_seq w (e # es) =
     (case Updated w e of
        None \<Rightarrow> None
      | Some (r, w') \<Rightarrow>
          (case Updated_seq w' es of
             None \<Rightarrow> None
           | Some (rs, w'') \<Rightarrow> Some (r # rs, w'')))"

section \<open>The goroutine of \<^verbatim>\<open>OnInterval\<close>\<close>

text \<open>
  \<^verbatim>\<open>
  var lastHash []byte
  cancelled := false
  for !cancelled {
          select {
          case <-done:
                  cancelled = true
          case <-ticker.C:
                  if checkedHash, updated, err := w.targetDiff(lastHash); err == nil {
                          if updated {
                                  lastHash = checkedHash
                                  select {
                                  case updatedCh <- struct{}{}:
                                  case <-done:
                                          cancelled = true
                                  }
                          }
                  }
          }
  }
  close(updatedCh)
  \<close>
  The state of the goroutine is its two local variables and the channel it writes: how
  many signals it has delivered and whether it has closed the channel. Which case a
  \<^verbatim>\<open>select\<close> takes is decided by the scheduler, the ticker and the consumer, so
  a run is driven by the list of cases taken: \<open>Done\<close> for the outer
  \<^verbatim>\<open>case <-done\<close>, and \<open>Tick e s\<close> for the outer \<^verbatim>\<open>case <-ticker.C\<close>
  at a moment when the world is \<open>e\<close>, where \<open>s\<close> is the case the inner
  \<^verbatim>\<open>select\<close> takes if the tick reaches it.
\<close>

record loop_state =
  lastHash_loop :: "byte list"
  cancelled :: bool
  emitted :: nat
  updatedCh_closed :: bool

datatype send_select = SendDelivered | SendDone

datatype 'e outer_select = Done | Tick 'e send_select

definition on_tick :: "'e watcher \<Rightarrow> loop_state \<Rightarrow> 'e \<Rightarrow> send_select \<Rightarrow> loop_state option" where
  "on_tick w st e s =
     (case targetDiff w e (lastHash_loop st) of
        None \<Rightarrow> None
      | Some (checkedHash, updated, err) \<Rightarrow>
          if err = None then
            (if updated then
               (case s of
                  SendDelivered \<Rightarrow>
                    Some (st\<lparr>lastHash_loop := checkedHash, emitted := Suc (emitted st)\<rparr>)
                | SendDone \<Rightarrow>
                    Some (st\<lparr>lastHash_loop := checkedHash, cancelled := True\<rparr>))
             else Some st)
          else Some st)"

fun loop_select :: "'e watcher \<Rightarrow> loop_state \<Rightarrow> 'e outer_select \<Rightarrow> loop_state option" where
  "loop_select w st Done = Some (st\<lparr>cancelled := True\<rparr>)"
| "loop_select w st (Tick e s) = on_tick w st e s"

fun loop_run :: "'e watcher \<Rightarrow> loop_state \<Rightarrow> 'e outer_select list \<Rightarrow> loop_state option" where
  "loop_run w st [] = Some st"
| "loop_run w st (ev # evs) =
     (if cancelled st then Some st
      else case loop_select w st ev of
             None \<Rightarrow> None
           | Some st' \<Rightarrow> loop_run w st' evs)"

definition OnInterval :: "'e watcher \<Rightarrow> 'e outer_select list \<Rightarrow> loop_state option" where
  "OnInterval w evs =
     (case loop_run w
             \<lparr>lastHash_loop = [], cancelled = False, emitted = 0, updatedCh_closed = False\<rparr> evs
      of None \<Rightarrow> None
       | Some st \<Rightarrow> Some (if cancelled st then st\<lparr>updatedCh_closed := True\<rparr> else st))"

text \<open>
  A caller polling by hand while the goroutine runs. The goroutine holds the pointer
  \<^verbatim>\<open>w\<close>, so each of its steps sees the watcher as the calls of
  \<^verbatim>\<open>Updated\<close> have left it. A schedule is any interleaving of the two.
\<close>

datatype 'e action = Call 'e | Select "'e outer_select"

fun interleaved ::
  "'e watcher \<Rightarrow> loop_state \<Rightarrow> 'e action list \<Rightarrow>
   ((bool \<times> error option) list \<times> 'e watcher \<times> loop_state) option" where
  "interleaved w st [] = Some ([], w, st)"
| "interleaved w st (Call e # acts) =
     (case Updated w e of
        None \<Rightarrow> None
      | Some (r, w') \<Rightarrow>
          (case interleaved w' st acts of
             None \<Rightarrow> None
           | Some (rs, w'', st') \<Rightarrow> Some (r # rs, w'', st')))"
| "interleaved w st (Select ev # acts) =
     (if cancelled st then interleaved w st acts
      else case loop_select w st ev of
             None \<Rightarrow> None
           | Some st' \<Rightarrow> interleaved w st' acts)"

fun calls_of :: "'e action list \<Rightarrow> 'e list" where
  "calls_of [] = []"
| "calls_of (Call e # acts) = e # calls_of acts"
| "calls_of (Select ev # acts) = calls_of acts"

fun selects_of :: "'e action list \<Rightarrow> 'e outer_select list" where
  "selects_of [] = []"
| "selects_of (Call e # acts) = selects_of acts"
| "selects_of (Select ev # acts) = ev # selects_of acts"

section \<open>What a change of content is\<close>

text \<open>
  The reading of the results of a polling caller in terms of content alone, with no
  digest: \<open>prev\<close> is the content of the most recent successful fetch, \<open>None\<close>
  before the first. A successful fetch counts as a change when its content is not
  \<open>prev\<close>; a failed fetch reports the target's fail-open flag and the error, and
  leaves \<open>prev\<close> alone.
\<close>

fun changes_by_content ::
  "'e Watched \<Rightarrow> byte list option \<Rightarrow> 'e list \<Rightarrow> (bool \<times> error option) list" where
  "changes_by_content tgt prev [] = []"
| "changes_by_content tgt prev (e # es) =
     (case Content tgt e of
        Inl err \<Rightarrow>
          (FailOpen tgt e, Some (''Unable to get target content: '' @ err))
            # changes_by_content tgt prev es
      | Inr c \<Rightarrow> (prev \<noteq> Some c, None) # changes_by_content tgt (Some c) es)"

fun fetched :: "'e Watched \<Rightarrow> 'e list \<Rightarrow> byte list list" where
  "fetched tgt [] = []"
| "fetched tgt (e # es) =
     (case Content tgt e of Inl err \<Rightarrow> fetched tgt es | Inr c \<Rightarrow> c # fetched tgt es)"

section \<open>Concrete file systems and contents\<close>

definition ascii :: "string \<Rightarrow> byte list" where
  "ascii s = map (\<lambda>c. of_nat (of_char c)) s"

definition holding :: "string \<Rightarrow> byte list \<Rightarrow> filesystem" where
  "holding p c = (\<lambda>q. if q = p then Inr c else Inl (''open '' @ q @ '': no such file or directory''))"

definition missing :: filesystem where
  "missing = (\<lambda>q. Inl (''open '' @ q @ '': no such file or directory''))"

text \<open>Two different files of 128 bytes with one MD5 digest (Wang and Yu, 2004).\<close>

definition collision_a :: "byte list" where
  "collision_a =
    [
     0xd1, 0x31, 0xdd, 0x02, 0xc5, 0xe6, 0xee, 0xc4, 0x69, 0x3d, 0x9a, 0x06, 0x98, 0xaf, 0xf9, 0x5c,
     0x2f, 0xca, 0xb5, 0x87, 0x12, 0x46, 0x7e, 0xab, 0x40, 0x04, 0x58, 0x3e, 0xb8, 0xfb, 0x7f, 0x89,
     0x55, 0xad, 0x34, 0x06, 0x09, 0xf4, 0xb3, 0x02, 0x83, 0xe4, 0x88, 0x83, 0x25, 0x71, 0x41, 0x5a,
     0x08, 0x51, 0x25, 0xe8, 0xf7, 0xcd, 0xc9, 0x9f, 0xd9, 0x1d, 0xbd, 0xf2, 0x80, 0x37, 0x3c, 0x5b,
     0xd8, 0x82, 0x3e, 0x31, 0x56, 0x34, 0x8f, 0x5b, 0xae, 0x6d, 0xac, 0xd4, 0x36, 0xc9, 0x19, 0xc6,
     0xdd, 0x53, 0xe2, 0xb4, 0x87, 0xda, 0x03, 0xfd, 0x02, 0x39, 0x63, 0x06, 0xd2, 0x48, 0xcd, 0xa0,
     0xe9, 0x9f, 0x33, 0x42, 0x0f, 0x57, 0x7e, 0xe8, 0xce, 0x54, 0xb6, 0x70, 0x80, 0xa8, 0x0d, 0x1e,
     0xc6, 0x98, 0x21, 0xbc, 0xb6, 0xa8, 0x83, 0x93, 0x96, 0xf9, 0x65, 0x2b, 0x6f, 0xf7, 0x2a, 0x70]"

definition collision_b :: "byte list" where
  "collision_b =
    [
     0xd1, 0x31, 0xdd, 0x02, 0xc5, 0xe6, 0xee, 0xc4, 0x69, 0x3d, 0x9a, 0x06, 0x98, 0xaf, 0xf9, 0x5c,
     0x2f, 0xca, 0xb5, 0x07, 0x12, 0x46, 0x7e, 0xab, 0x40, 0x04, 0x58, 0x3e, 0xb8, 0xfb, 0x7f, 0x89,
     0x55, 0xad, 0x34, 0x06, 0x09, 0xf4, 0xb3, 0x02, 0x83, 0xe4, 0x88, 0x83, 0x25, 0xf1, 0x41, 0x5a,
     0x08, 0x51, 0x25, 0xe8, 0xf7, 0xcd, 0xc9, 0x9f, 0xd9, 0x1d, 0xbd, 0x72, 0x80, 0x37, 0x3c, 0x5b,
     0xd8, 0x82, 0x3e, 0x31, 0x56, 0x34, 0x8f, 0x5b, 0xae, 0x6d, 0xac, 0xd4, 0x36, 0xc9, 0x19, 0xc6,
     0xdd, 0x53, 0xe2, 0x34, 0x87, 0xda, 0x03, 0xfd, 0x02, 0x39, 0x63, 0x06, 0xd2, 0x48, 0xcd, 0xa0,
     0xe9, 0x9f, 0x33, 0x42, 0x0f, 0x57, 0x7e, 0xe8, 0xce, 0x54, 0xb6, 0x70, 0x80, 0x28, 0x0d, 0x1e,
     0xc6, 0x98, 0x21, 0xbc, 0xb6, 0xa8, 0x83, 0x93, 0x96, 0xf9, 0x65, 0xab, 0x6f, 0xf7, 0x2a, 0x70]"

definition collision_digest :: "byte list" where
  "collision_digest =
    [0x79, 0x05, 0x40, 0x25, 0x25, 0x5f, 0xb1, 0xa2, 0x6e, 0x4b, 0xc4, 0x22, 0xae, 0xf5, 0x4e, 0xb4]"

section \<open>The comparison routine\<close>

lemma byteSliceMatch_loop_drop:
  "length a = length b \<Longrightarrow> i \<le> length a \<Longrightarrow>
   byteSliceMatch_loop a b i = Some (drop i a = drop i b)"
proof (induction a b i rule: byteSliceMatch_loop.induct)
  case (1 a b i)
  show ?case
  proof (cases "i < length a")
    case False
    with "1.prems" show ?thesis
      by (subst byteSliceMatch_loop.simps) simp
  next
    case inside: True
    with "1.prems" have ib: "i < length b" by simp
    have da: "drop i a = a ! i # drop (Suc i) a"
      using inside by (simp add: Cons_nth_drop_Suc)
    have db: "drop i b = b ! i # drop (Suc i) b"
      using ib by (simp add: Cons_nth_drop_Suc)
    show ?thesis
    proof (cases "a ! i = b ! i")
      case True
      with "1.IH" [OF inside ib] "1.prems" inside
      have "byteSliceMatch_loop a b (Suc i) = Some (drop (Suc i) a = drop (Suc i) b)"
        by simp
      with True inside ib da db show ?thesis
        by (subst byteSliceMatch_loop.simps) simp
    next
      case False
      with inside ib da db show ?thesis
        by (subst byteSliceMatch_loop.simps) simp
    qed
  qed
qed

lemma byteSliceMatch_eq: "byteSliceMatch a b = Some (a = b)"
proof (cases "length a = length b")
  case True
  then show ?thesis
    using byteSliceMatch_loop_drop [of a b 0] by (simp add: byteSliceMatch_def)
next
  case False
  then show ?thesis
    by (auto simp: byteSliceMatch_def)
qed

lemma length_md5: "length (md5 m) = 16"
  by (simp add: md5_def le_bytes32_def split: prod.split)

text \<open>
  C9. Whatever two byte sequences the comparison routine is given, it returns a boolean
  and does not panic; the boolean is true exactly when the two sequences are identical,
  length included; and sequences of different lengths are reported different.
\<close>

theorem byteSliceMatch_exact:
  "byteSliceMatch a b = Some (a = b) \<and>
   (length a \<noteq> length b \<longrightarrow> byteSliceMatch a b = Some False)"
  using byteSliceMatch_eq [of a b] by auto

theorem byteSliceMatch_exact_witness:
  "length (md5 []) \<noteq> length ([] :: byte list) \<and> byteSliceMatch (md5 []) [] = Some False"
proof -
  have differ: "length (md5 []) \<noteq> length ([] :: byte list)"
    using length_md5 [of "[]"] by simp
  with byteSliceMatch_exact [of "md5 []" "[]"] show ?thesis
    by blast
qed

section \<open>\<^verbatim>\<open>targetDiff\<close> and \<^verbatim>\<open>Updated\<close> in closed form\<close>

lemma targetDiff_Inl:
  "Content (target w) e = Inl err \<Longrightarrow>
   targetDiff w e token =
     Some ([], FailOpen (target w) e, Some (''Unable to get target content: '' @ err))"
  by (simp add: targetDiff_def)

lemma targetDiff_Inr:
  "Content (target w) e = Inr c \<Longrightarrow>
   targetDiff w e token =
     Some (if md5 c = token then (token, False, None) else (md5 c, True, None))"
  by (simp add: targetDiff_def byteSliceMatch_eq)

lemma Updated_Inl:
  "Content (target w) e = Inl err \<Longrightarrow>
   Updated w e =
     Some ((FailOpen (target w) e, Some (''Unable to get target content: '' @ err)), w)"
  by (simp add: Updated_def targetDiff_Inl)

lemma Updated_Inr:
  "Content (target w) e = Inr c \<Longrightarrow>
   Updated w e = Some ((md5 c \<noteq> lastHash w, None), w\<lparr>lastHash := md5 c\<rparr>)"
  by (simp add: Updated_def targetDiff_Inr)

lemma Updated_target:
  "Updated w e = Some (r, w') \<Longrightarrow> target w' = target w"
  by (cases "Content (target w) e") (auto simp: Updated_Inl Updated_Inr)

lemma Updated_seq_append:
  "Updated_seq w es = Some (rs, w') \<Longrightarrow> Updated w' e = Some (r, w'') \<Longrightarrow>
   Updated_seq w (es @ [e]) = Some (rs @ [r], w'')"
proof (induction es arbitrary: w rs)
  case Nil
  then show ?case by simp
next
  case (Cons x xs)
  from Cons.prems(1) obtain r0 w0 rs0
    where step: "Updated w x = Some (r0, w0)"
      and rest: "Updated_seq w0 xs = Some (rs0, w')"
      and rs: "rs = r0 # rs0"
    by (auto split: option.splits)
  from Cons.IH [OF rest Cons.prems(2)] step rs show ?case
    by simp
qed

lemma Updated_seq_all_fail:
  "\<forall>e\<in>set es. Content (target w) e = Inl (err e) \<Longrightarrow>
   Updated_seq w es =
     Some (map (\<lambda>e. (FailOpen (target w) e,
                      Some (''Unable to get target content: '' @ err e))) es, w)"
  by (induction es) (simp_all add: Updated_Inl)

lemma Updated_seq_target:
  "Updated_seq w es = Some (rs, w') \<Longrightarrow> target w' = target w"
proof (induction es arbitrary: w rs)
  case Nil
  then show ?case by simp
next
  case (Cons e es)
  from Cons.prems obtain r0 w0 rs0
    where step: "Updated w e = Some (r0, w0)"
      and rest: "Updated_seq w0 es = Some (rs0, w')"
    by (auto split: option.splits)
  from Cons.IH [OF rest] Updated_target [OF step] show ?case
    by simp
qed

lemma New_is_NewWatched: "New tgt = NewWatched tgt"
  by (simp add: New_def NewWatched_def)

lemmas file_defs =
  File_def NewWatched_def FileTarget_def watchedFile_Content_def watchedFile_FailOpen_def
  holding_def missing_def

section \<open>Fetch errors\<close>

text \<open>
  C2. Over a target whose \<^verbatim>\<open>Content()\<close> fails at every call, every call of
  \<^verbatim>\<open>Updated()\<close> returns the target's fail-open flag together with the error:
  true with an error for a fail-open target, false with an error for a fail-closed one.
  The watcher is left as it was.
\<close>

theorem Updated_always_fails:
  assumes "\<forall>e\<in>set es. Content (target w) e = Inl (err e)"
  shows "Updated_seq w es =
           Some (map (\<lambda>e. (FailOpen (target w) e,
                            Some (''Unable to get target content: '' @ err e))) es, w)"
  using assms by (rule Updated_seq_all_fail)

theorem Updated_always_fails_witness:
  "Content (target (NewWatched (FileTarget ''app.conf'' False))) missing =
     Inl ''Unable to read config file: open app.conf: no such file or directory'' \<and>
   Updated_seq (NewWatched (FileTarget ''app.conf'' False)) [missing, missing] =
     Some ([(False, Some ''Unable to get target content: Unable to read config file: open app.conf: no such file or directory''),
            (False, Some ''Unable to get target content: Unable to read config file: open app.conf: no such file or directory'')],
           NewWatched (FileTarget ''app.conf'' False)) \<and>
   Updated_seq (NewWatched (FileTarget ''app.conf'' True)) [missing, missing] =
     Some ([(True, Some ''Unable to get target content: Unable to read config file: open app.conf: no such file or directory''),
            (True, Some ''Unable to get target content: Unable to read config file: open app.conf: no such file or directory'')],
           NewWatched (FileTarget ''app.conf'' True))"
proof -
  have fails: "\<forall>e\<in>set [missing, missing].
      Content (target (NewWatched (FileTarget ''app.conf'' fo))) e =
        Inl ((\<lambda>e. ''Unable to read config file: open app.conf: no such file or directory'') e)"
    for fo
    by (simp add: file_defs)
  show ?thesis
    using fails [of False] Updated_always_fails [OF fails [of False]]
      Updated_always_fails [OF fails [of True]]
    by (simp add: file_defs)
qed

text \<open>
  C4. A call of \<^verbatim>\<open>Updated()\<close> that returns an error leaves the watcher, and so
  its stored \<^verbatim>\<open>lastHash\<close>, exactly as it was; the next call therefore compares
  against the same fingerprint as if the failed call had not happened.
\<close>

theorem Updated_error_keeps_lastHash:
  assumes "Updated w e = Some ((diff, Some err), w')"
  shows "lastHash w' = lastHash w \<and> w' = w \<and> Updated w' e2 = Updated w e2"
proof (cases "Content (target w) e")
  case (Inl msg)
  with assms show ?thesis
    by (simp add: Updated_Inl)
next
  case (Inr c)
  with assms show ?thesis
    by (simp add: Updated_Inr)
qed

theorem Updated_error_keeps_lastHash_witness:
  "Updated ((File ''app.conf'')\<lparr>lastHash := md5 (ascii ''hello'')\<rparr>) missing =
     Some ((True, Some ''Unable to get target content: Unable to read config file: open app.conf: no such file or directory''),
           (File ''app.conf'')\<lparr>lastHash := md5 (ascii ''hello'')\<rparr>) \<and>
   lastHash ((File ''app.conf'')\<lparr>lastHash := md5 (ascii ''hello'')\<rparr>) = md5 (ascii ''hello'')"
proof -
  let ?w = "(File ''app.conf'')\<lparr>lastHash := md5 (ascii ''hello'')\<rparr>"
  have "Content (target ?w) missing =
          Inl ''Unable to read config file: open app.conf: no such file or directory''"
    by (simp add: file_defs)
  then have call: "Updated ?w missing =
     Some ((True, Some ''Unable to get target content: Unable to read config file: open app.conf: no such file or directory''), ?w)"
    by (simp add: Updated_Inl) (simp add: file_defs)
  from Updated_error_keeps_lastHash [OF call, of missing] call show ?thesis
    by simp
qed

text \<open>
  C5, as the claim has it, fails: when the fetch fails, the fingerprint that
  \<^verbatim>\<open>targetDiff\<close> returns is not the caller's token. Given the one-byte token
  \<open>[0x2a]\<close> and a file that cannot be read, it returns the nil slice.
\<close>

theorem targetDiff_failure_token_counterexample:
  "targetDiff (File ''app.conf'') missing [0x2a] =
     Some ([], True,
           Some ''Unable to get target content: Unable to read config file: open app.conf: no such file or directory'') \<and>
   ([] :: byte list) \<noteq> [0x2a]"
  by (simp add: targetDiff_def file_defs)

text \<open>
  C5, amended. When the target's content fetch fails, \<^verbatim>\<open>targetDiff\<close> returns,
  for every token, the nil slice as fingerprint, the target's fail-open flag as the
  changed flag, and the error. (Its callers do not use the fingerprint of a result that
  carries an error.)
\<close>

theorem targetDiff_failure_returns_nil:
  assumes "Content (target w) e = Inl err"
  shows "targetDiff w e token =
           Some ([], FailOpen (target w) e, Some (''Unable to get target content: '' @ err))"
  using assms by (simp add: targetDiff_def)

theorem targetDiff_failure_returns_nil_witness:
  "Content (target (NewWatched (FileTarget ''app.conf'' False))) missing =
     Inl ''Unable to read config file: open app.conf: no such file or directory'' \<and>
   targetDiff (NewWatched (FileTarget ''app.conf'' False)) missing [0x2a] =
     Some ([], False,
           Some ''Unable to get target content: Unable to read config file: open app.conf: no such file or directory'')"
proof -
  have fails: "Content (target (NewWatched (FileTarget ''app.conf'' False))) missing =
     Inl ''Unable to read config file: open app.conf: no such file or directory''"
    by (simp add: file_defs)
  from targetDiff_failure_returns_nil [OF fails, of "[0x2a]"] fails show ?thesis
    by (simp add: file_defs)
qed

text \<open>
  C10. For every path, the watcher that \<^verbatim>\<open>File(path)\<close> constructs is over a file
  target whose \<^verbatim>\<open>FailOpen()\<close> is true, and it stays over that target whatever
  calls of \<^verbatim>\<open>Updated()\<close> it has been through. So on such a watcher, in whatever
  state (fresh, or holding the digest of an earlier read), a call of
  \<^verbatim>\<open>Updated()\<close> at a moment when the file cannot be read reports a change
  together with the error, and leaves the watcher as it was.
\<close>

theorem File_is_fail_open:
  "FailOpen (target (File p)) fs \<and>
   (Updated_seq (File p) es = Some (rs, w) \<longrightarrow> target w = target (File p)) \<and>
   (target w' = target (File p) \<longrightarrow> fs p = Inl err \<longrightarrow>
      Updated w' fs =
        Some ((True, Some (''Unable to get target content: Unable to read config file: '' @ err)),
              w'))"
proof -
  have flag: "FailOpen (target (File p)) fs"
    by (simp add: file_defs)
  have stays: "target w = target (File p)" if "Updated_seq (File p) es = Some (rs, w)"
    using that by (rule Updated_seq_target)
  have "Updated w' fs =
        Some ((True, Some (''Unable to get target content: Unable to read config file: '' @ err)),
              w')" if over: "target w' = target (File p)" and gone: "fs p = Inl err"
  proof -
    from gone have "Content (target (File p)) fs = Inl (''Unable to read config file: '' @ err)"
      by (simp add: file_defs)
    with over have "Content (target w') fs = Inl (''Unable to read config file: '' @ err)"
      by simp
    moreover from flag over have "FailOpen (target w') fs"
      by simp
    ultimately show ?thesis
      by (simp add: Updated_Inl)
  qed
  with flag stays show ?thesis
    by blast
qed

theorem File_is_fail_open_witness:
  "missing ''app.conf'' = Inl ''open app.conf: no such file or directory'' \<and>
   FailOpen (target (File ''app.conf'')) missing \<and>
   Updated_seq (File ''app.conf'') [holding ''app.conf'' (ascii ''hello'')] =
     Some ([(True, None)], (File ''app.conf'')\<lparr>lastHash := md5 (ascii ''hello'')\<rparr>) \<and>
   target ((File ''app.conf'')\<lparr>lastHash := md5 (ascii ''hello'')\<rparr>) = target (File ''app.conf'') \<and>
   Updated ((File ''app.conf'')\<lparr>lastHash := md5 (ascii ''hello'')\<rparr>) missing =
     Some ((True, Some ''Unable to get target content: Unable to read config file: open app.conf: no such file or directory''),
           (File ''app.conf'')\<lparr>lastHash := md5 (ascii ''hello'')\<rparr>) \<and>
   Updated (File ''app.conf'') missing =
     Some ((True, Some ''Unable to get target content: Unable to read config file: open app.conf: no such file or directory''),
           File ''app.conf'')"
proof -
  let ?w = "File ''app.conf''"
  let ?w' = "?w\<lparr>lastHash := md5 (ascii ''hello'')\<rparr>"
  let ?gone = "''open app.conf: no such file or directory''"
  have gone: "missing ''app.conf'' = Inl ?gone"
    by (simp add: missing_def)
  have "Content (target ?w) (holding ''app.conf'' (ascii ''hello'')) = Inr (ascii ''hello'')"
    by (simp add: file_defs)
  moreover have "lastHash ?w = []"
    by (simp add: file_defs)
  ultimately have "Updated ?w (holding ''app.conf'' (ascii ''hello'')) = Some ((True, None), ?w')"
    using length_md5 [of "ascii ''hello''"] by (auto simp: Updated_Inr)
  then have run: "Updated_seq ?w [holding ''app.conf'' (ascii ''hello'')] = Some ([(True, None)], ?w')"
    by simp
  note fact = File_is_fail_open [of "''app.conf''" missing "[holding ''app.conf'' (ascii ''hello'')]"
      "[(True, None)]" ?w' _ ?gone]
  from fact [of ?w'] run have over: "target ?w' = target ?w"
    by blast
  from fact [of ?w'] over gone have later: "Updated ?w' missing =
     Some ((True, Some (''Unable to get target content: Unable to read config file: '' @ ?gone)), ?w')"
    by blast
  have "target ?w = target ?w"
    by simp
  with fact [of ?w] gone have fresh: "Updated ?w missing =
     Some ((True, Some (''Unable to get target content: Unable to read config file: '' @ ?gone)), ?w)"
    by blast
  from fact [of ?w] have flag: "FailOpen (target ?w) missing"
    by blast
  from gone flag run over later fresh show ?thesis
    by simp
qed

section \<open>The first observation\<close>

text \<open>
  C3. On a freshly constructed watcher, the first call of \<^verbatim>\<open>Updated()\<close> whose
  fetch succeeds reports a change with no error, whatever the content fetched (the empty
  content too) and however many failed calls came before it; the watcher then holds the
  digest of that content.
\<close>

theorem first_successful_Updated_changed:
  assumes "\<forall>e\<in>set es. Content tgt e = Inl (err e)"
    and "Content tgt e' = Inr c"
  shows "Updated_seq (NewWatched tgt) (es @ [e']) =
           Some (map (\<lambda>e. (FailOpen tgt e,
                            Some (''Unable to get target content: '' @ err e))) es
                   @ [(True, None)],
                 \<lparr>target = tgt, lastHash = md5 c\<rparr>)"
proof -
  let ?w = "NewWatched tgt"
  have tgt: "target ?w = tgt" and fresh: "lastHash ?w = []"
    by (simp_all add: NewWatched_def)
  from assms(1) tgt have "\<forall>e\<in>set es. Content (target ?w) e = Inl (err e)"
    by simp
  then have before: "Updated_seq ?w es =
      Some (map (\<lambda>e. (FailOpen (target ?w) e,
                       Some (''Unable to get target content: '' @ err e))) es, ?w)"
    by (rule Updated_seq_all_fail)
  have "md5 c \<noteq> []"
    using length_md5 [of c] by auto
  with assms(2) tgt fresh
  have "Updated ?w e' = Some ((True, None), ?w\<lparr>lastHash := md5 c\<rparr>)"
    by (simp add: Updated_Inr)
  from Updated_seq_append [OF before this] tgt show ?thesis
    by (simp add: NewWatched_def)
qed

theorem first_successful_Updated_changed_witness:
  "Content (FileTarget ''app.conf'' False) missing =
     Inl ''Unable to read config file: open app.conf: no such file or directory'' \<and>
   Content (FileTarget ''app.conf'' False) (holding ''app.conf'' []) = Inr [] \<and>
   Updated_seq (NewWatched (FileTarget ''app.conf'' False)) [missing, holding ''app.conf'' []] =
     Some ([(False, Some ''Unable to get target content: Unable to read config file: open app.conf: no such file or directory''),
            (True, None)],
           \<lparr>target = FileTarget ''app.conf'' False, lastHash = md5 []\<rparr>)"
proof -
  have fails: "\<forall>e\<in>set [missing]. Content (FileTarget ''app.conf'' False) e =
       Inl ((\<lambda>e. ''Unable to read config file: open app.conf: no such file or directory'') e)"
    by (simp add: file_defs)
  have reads: "Content (FileTarget ''app.conf'' False) (holding ''app.conf'' []) = Inr []"
    by (simp add: file_defs)
  from first_successful_Updated_changed [OF fails reads] fails reads show ?thesis
    by (simp add: file_defs)
qed

section \<open>The interval loop\<close>

text \<open>
  C6, as the claim has it, fails: on a tick whose fetch fails against a fail-open target,
  \<^verbatim>\<open>targetDiff\<close> reports a change together with an error, and the loop emits
  nothing. The watcher of \<^verbatim>\<open>File\<close> is fail-open; after one such tick, with a
  consumer ready to receive, no signal has been delivered.
\<close>

theorem OnInterval_fail_open_tick_counterexample:
  "targetDiff (File ''app.conf'') missing [] =
     Some ([], True,
           Some ''Unable to get target content: Unable to read config file: open app.conf: no such file or directory'') \<and>
   OnInterval (File ''app.conf'') [Tick missing SendDelivered] =
     Some \<lparr>lastHash_loop = [], cancelled = False, emitted = 0, updatedCh_closed = False\<rparr>"
  by (simp add: OnInterval_def on_tick_def targetDiff_def file_defs)

text \<open>
  C6, amended. In the interval loop, a tick whose content fetch fails changes nothing,
  whether the target is fail-open or fail-closed: no signal is emitted, the loop's
  fingerprint is kept, and the loop goes on to its next \<^verbatim>\<open>select\<close>.
\<close>

theorem failed_tick_is_absorbed:
  assumes "Content (target w) e = Inl err"
  shows "loop_select w st (Tick e s) = Some st"
  using assms by (simp add: on_tick_def targetDiff_def)

theorem failed_tick_is_absorbed_witness:
  "Content (target (File ''app.conf'')) missing =
     Inl ''Unable to read config file: open app.conf: no such file or directory'' \<and>
   FailOpen (target (File ''app.conf'')) missing \<and>
   loop_select (File ''app.conf'')
       \<lparr>lastHash_loop = md5 [], cancelled = False, emitted = 1, updatedCh_closed = False\<rparr>
       (Tick missing SendDelivered) =
     Some \<lparr>lastHash_loop = md5 [], cancelled = False, emitted = 1, updatedCh_closed = False\<rparr>"
proof -
  have fails: "Content (target (File ''app.conf'')) missing =
     Inl ''Unable to read config file: open app.conf: no such file or directory''"
    by (simp add: file_defs)
  have "FailOpen (target (File ''app.conf'')) missing"
    by (simp add: file_defs)
  with failed_tick_is_absorbed [OF fails] fails show ?thesis
    by blast
qed

section \<open>Polling by hand while the loop runs\<close>

lemma targetDiff_same_target:
  "target w' = target w \<Longrightarrow> targetDiff w' e token = targetDiff w e token"
  by (simp add: targetDiff_def split: sum.split)

lemma loop_select_same_target:
  "target w' = target w \<Longrightarrow> loop_select w' st ev = loop_select w st ev"
  by (cases ev) (simp_all add: on_tick_def targetDiff_same_target [of w' w])

lemma loop_run_same_target:
  "target w' = target w \<Longrightarrow> loop_run w' st evs = loop_run w st evs"
  by (induction evs arbitrary: st)
    (simp_all add: loop_select_same_target [of w' w] split: option.split)

lemma loop_run_cancelled:
  "cancelled st \<Longrightarrow> loop_run w st evs = Some st"
  by (cases evs) simp_all

lemma Updated_returns:
  "\<exists>r w'. Updated w e = Some (r, w')"
  by (cases "Content (target w) e") (simp_all add: Updated_Inl Updated_Inr)

lemma interleaved_split:
  "interleaved w st acts =
     (case Updated_seq w (calls_of acts) of
        None \<Rightarrow> None
      | Some (rs, w') \<Rightarrow>
          (case loop_run w st (selects_of acts) of
             None \<Rightarrow> None
           | Some st' \<Rightarrow> Some (rs, w', st')))"
proof (induction w st acts rule: interleaved.induct)
  case (1 w st)
  show ?case by simp
next
  case (2 w st e acts)
  obtain r w' where step: "Updated w e = Some (r, w')"
    using Updated_returns [of w e] by blast
  then have "target w' = target w"
    by (rule Updated_target)
  then have same: "loop_run w' st (selects_of acts) = loop_run w st (selects_of acts)"
    by (rule loop_run_same_target)
  from "2.IH" [OF step refl] step same show ?case
    by (simp split: option.split)
next
  case (3 w st ev acts)
  show ?case
  proof (cases "cancelled st")
    case True
    with "3.IH"(1) show ?thesis
      by (simp add: loop_run_cancelled split: option.split)
  next
    case False
    with "3.IH"(2) show ?thesis
      by (simp split: option.split)
  qed
qed

text \<open>
  C7. The loop keeps its own fingerprint, apart from the watcher's \<^verbatim>\<open>lastHash\<close>.
  Under every interleaving of \<^verbatim>\<open>Updated()\<close> calls and steps of the loop on one
  watcher, the results of the calls and the watcher's final state are those of the calls
  run alone, and the loop's final state (its fingerprint, what it emitted, whether it was
  cancelled) is that of the loop run alone. The calls do not depend on the loop's state,
  and the loop does not depend on the watcher's \<^verbatim>\<open>lastHash\<close>.
\<close>

theorem Updated_and_loop_independent:
  "interleaved w st acts =
     (case Updated_seq w (calls_of acts) of
        None \<Rightarrow> None
      | Some (rs, w') \<Rightarrow>
          (case loop_run w st (selects_of acts) of
             None \<Rightarrow> None
           | Some st' \<Rightarrow> Some (rs, w', st'))) \<and>
   loop_run (w\<lparr>lastHash := h\<rparr>) st evs = loop_run w st evs"
proof -
  have "target (w\<lparr>lastHash := h\<rparr>) = target w"
    by simp
  then have "loop_run (w\<lparr>lastHash := h\<rparr>) st evs = loop_run w st evs"
    by (rule loop_run_same_target)
  with interleaved_split [of w st acts] show ?thesis
    by blast
qed

section \<open>Changes of content\<close>

lemma md5_collision_a: "md5 collision_a = collision_digest"
  by code_simp

lemma md5_collision_b: "md5 collision_b = collision_digest"
  by code_simp

lemma collision_differ: "collision_a \<noteq> collision_b"
  by code_simp

lemma md5_hello:
  "md5 (ascii ''hello'') =
     [0x5d, 0x41, 0x40, 0x2a, 0xbc, 0x4b, 0x2a, 0x76, 0xb9, 0x71, 0x9d, 0x91, 0x10, 0x17, 0xc5, 0x92]"
  by code_simp

lemma md5_world:
  "md5 (ascii ''world'') =
     [0x7d, 0x79, 0x30, 0x37, 0xa0, 0x76, 0x01, 0x86, 0x57, 0x4b, 0x02, 0x82, 0xf2, 0xf4, 0x35, 0xe7]"
  by code_simp

lemma Updated_seq_changes:
  assumes "lastHash w = (case prev of None \<Rightarrow> [] | Some p \<Rightarrow> md5 p)"
    and "inj_on md5 (set (fetched (target w) es) \<union> set_option prev)"
  shows "map_option fst (Updated_seq w es) = Some (changes_by_content (target w) prev es)"
  using assms
proof (induction es arbitrary: w prev)
  case Nil
  show ?case by simp
next
  case (Cons e es)
  show ?case
  proof (cases "Content (target w) e")
    case (Inl err)
    from Inl Cons.prems(2) have "inj_on md5 (set (fetched (target w) es) \<union> set_option prev)"
      by simp
    from Cons.IH [OF Cons.prems(1) this] obtain w'
      where "Updated_seq w es = Some (changes_by_content (target w) prev es, w')"
      by auto
    with Inl show ?thesis
      by (simp add: Updated_Inl)
  next
    case (Inr c)
    let ?w' = "w\<lparr>lastHash := md5 c\<rparr>"
    have step: "Updated w e = Some ((md5 c \<noteq> lastHash w, None), ?w')"
      using Inr by (rule Updated_Inr)
    have changed: "(md5 c \<noteq> lastHash w) = (prev \<noteq> Some c)"
    proof (cases prev)
      case None
      with Cons.prems(1) length_md5 [of c] show ?thesis
        by auto
    next
      case (Some p)
      have "c \<in> set (fetched (target w) (e # es)) \<union> set_option prev"
        using Inr by simp
      moreover have "p \<in> set (fetched (target w) (e # es)) \<union> set_option prev"
        using Some by simp
      ultimately have "(md5 c = md5 p) = (c = p)"
        by (rule inj_on_eq_iff [OF Cons.prems(2)])
      with Cons.prems(1) Some show ?thesis
        by auto
    qed
    have "inj_on md5 (set (fetched (target ?w') es) \<union> set_option (Some c))"
      by (rule inj_on_subset [OF Cons.prems(2)]) (use Inr in auto)
    moreover have "lastHash ?w' = (case Some c of None \<Rightarrow> [] | Some p \<Rightarrow> md5 p)"
      by simp
    ultimately have "map_option fst (Updated_seq ?w' es) =
        Some (changes_by_content (target ?w') (Some c) es)"
      by (rule Cons.IH [rotated])
    then obtain w'' where "Updated_seq ?w' es = Some (changes_by_content (target w) (Some c) es, w'')"
      by auto
    with step changed Inr show ?thesis
      by simp
  qed
qed

text \<open>
  C1, as the claim has it, fails: \<^verbatim>\<open>Updated()\<close> compares MD5 digests, not
  contents. The file first holds one of two different contents with the same digest and
  then the other; the second call fetches content that differs from the content fetched
  before it, and returns \<open>(false, nil)\<close>.
\<close>

theorem Updated_md5_collision_counterexample:
  "collision_a \<noteq> collision_b \<and>
   Updated_seq (File ''app.conf'')
       [holding ''app.conf'' collision_a, holding ''app.conf'' collision_b] =
     Some ([(True, None), (False, None)], (File ''app.conf'')\<lparr>lastHash := collision_digest\<rparr>)"
proof -
  let ?w = "File ''app.conf''"
  let ?w' = "?w\<lparr>lastHash := collision_digest\<rparr>"
  have fresh: "lastHash ?w = []"
    by (simp add: file_defs)
  have "Content (target ?w) (holding ''app.conf'' collision_a) = Inr collision_a"
    by (simp add: file_defs)
  then have first: "Updated ?w (holding ''app.conf'' collision_a) = Some ((True, None), ?w')"
    using length_md5 [of collision_a] by (auto simp: Updated_Inr fresh md5_collision_a)
  have "Content (target ?w') (holding ''app.conf'' collision_b) = Inr collision_b"
    by (simp add: file_defs)
  then have second: "Updated ?w' (holding ''app.conf'' collision_b) = Some ((False, None), ?w')"
    by (simp add: Updated_Inr md5_collision_b)
  from first second collision_differ show ?thesis
    by simp
qed

text \<open>
  C1, amended. Take any sequence of calls of \<^verbatim>\<open>Updated()\<close> on a fresh watcher in
  which no two different contents fetched have the same MD5 digest. Then a call whose
  fetch succeeds returns changed = true exactly when the content fetched differs, as a
  byte sequence, from the content of the most recent successful fetch before it (the
  first successful fetch counts as a change), with no error; so successive calls over
  unchanged content return \<open>(false, nil)\<close> after the first observation. A call whose
  fetch fails returns the fail-open flag and the error, and is not an observation.
\<close>

theorem Updated_tracks_content_changes:
  assumes "inj_on md5 (set (fetched tgt es))"
  shows "map_option fst (Updated_seq (NewWatched tgt) es) =
           Some (changes_by_content tgt None es)"
proof -
  have "lastHash (NewWatched tgt) = (case None of None \<Rightarrow> [] | Some p \<Rightarrow> md5 p)"
    by (simp add: NewWatched_def)
  moreover have "inj_on md5 (set (fetched (target (NewWatched tgt)) es) \<union> set_option None)"
    using assms by (simp add: NewWatched_def)
  ultimately have "map_option fst (Updated_seq (NewWatched tgt) es) =
      Some (changes_by_content (target (NewWatched tgt)) None es)"
    by (rule Updated_seq_changes)
  then show ?thesis
    by (simp add: NewWatched_def)
qed

theorem Updated_tracks_content_changes_witness:
  "inj_on md5 (set (fetched (FileTarget ''app.conf'' True)
       [holding ''app.conf'' (ascii ''hello''), holding ''app.conf'' (ascii ''hello''),
        missing, holding ''app.conf'' (ascii ''hello''), holding ''app.conf'' (ascii ''world'')])) \<and>
   map_option fst (Updated_seq (File ''app.conf'')
       [holding ''app.conf'' (ascii ''hello''), holding ''app.conf'' (ascii ''hello''),
        missing, holding ''app.conf'' (ascii ''hello''), holding ''app.conf'' (ascii ''world'')]) =
     Some [(True, None), (False, None),
           (True, Some ''Unable to get target content: Unable to read config file: open app.conf: no such file or directory''),
           (False, None), (True, None)]"
proof -
  let ?es = "[holding ''app.conf'' (ascii ''hello''), holding ''app.conf'' (ascii ''hello''),
        missing, holding ''app.conf'' (ascii ''hello''), holding ''app.conf'' (ascii ''world'')]"
  have contents: "fetched (FileTarget ''app.conf'' True) ?es =
      [ascii ''hello'', ascii ''hello'', ascii ''hello'', ascii ''world'']"
    by (simp add: file_defs)
  have differ: "ascii ''hello'' \<noteq> ascii ''world''"
    by (simp add: ascii_def)
  have "md5 (ascii ''hello'') \<noteq> md5 (ascii ''world'')"
    by (simp add: md5_hello md5_world)
  with differ have inj: "inj_on md5 (set (fetched (FileTarget ''app.conf'' True) ?es))"
    unfolding contents by auto
  have "changes_by_content (FileTarget ''app.conf'' True) None ?es =
     [(True, None), (False, None),
      (True, Some ''Unable to get target content: Unable to read config file: open app.conf: no such file or directory''),
      (False, None), (True, None)]"
    using differ by (simp add: file_defs)
  with Updated_tracks_content_changes [OF inj] inj show ?thesis
    by (simp add: File_def)
qed

end
